theory Spec2Isabelle
  imports Main "HOL-Library.Sublist" "HOL-Library.Multiset"
begin

section \<open>Data model of git.go\<close>

text \<open>
  Byte slices and Go strings are both byte sequences; one \<open>char\<close> is one byte.
\<close>

type_synonym bytes = string

text \<open>
  An error value produced by the Go runtime or library (\<open>exec\<close>, \<open>os\<close>, \<open>fmt\<close>),
  identified by its message.
\<close>

datatype go_error = GoError string

text \<open>
  \<open>hierr.Errorf(err, format, args...)\<close>: the nested error and the formatted message.
  It is the only error form that git.go returns.
\<close>

datatype error = Hierr go_error string

text \<open>A \<open>panic(...)\<close> of the Go runtime; it unwinds the goroutine and ends the process.\<close>

datatype panic = Panic string

text \<open>
  \<open>time.Time\<close> as far as git.go observes it: \<open>Unix()\<close> is the number of whole seconds
  since the epoch, \<open>Nanosecond()\<close> the offset within that second.
\<close>

datatype time = Time (Unix: int) (Nanosecond: nat)

text \<open>\<open>t.Before(u)\<close> of package \<open>time\<close>.\<close>

definition Before :: "time \<Rightarrow> time \<Rightarrow> bool" where
  "Before t u = (Unix t < Unix u \<or> (Unix t = Unix u \<and> Nanosecond t < Nanosecond u))"

text \<open>\<open>os.FileInfo\<close>: git.go only calls \<open>ModTime()\<close> on it.\<close>

record fileinfo =
  ModTime :: time

text \<open>\<open>type ref struct\<close>; the interface value \<open>stat\<close> may be nil, which is \<open>None\<close>.\<close>

record ref =
  name :: string
  hash :: string
  stat :: "fileinfo option"

type_synonym refs = "ref list"

text \<open>
  What one run of the backing process hands back to the Go side: the error of each step
  of \<open>exec.Cmd\<close> that git.go checks, and the bytes of the two output streams.
  \<open>CombinedOutput\<close> and \<open>Run\<close> only show \<open>start_err\<close> and \<open>wait_err\<close>; the pipe
  steps are those of \<open>writeObject\<close>.
\<close>

record run =
  stdin_pipe_err :: "go_error option"
  stdout_pipe_err :: "go_error option"
  start_err :: "go_error option"
  write_err :: "go_error option"
  close_err :: "go_error option"
  read_err :: "go_error option"
  wait_err :: "go_error option"
  stdout :: bytes
  stderr :: bytes

text \<open>The error of \<open>cmd.Run()\<close> and of \<open>cmd.CombinedOutput()\<close>: start first, then wait.\<close>

definition run_err :: "run \<Rightarrow> go_error option" where
  "run_err r = (case start_err r of Some e \<Rightarrow> Some e | None \<Rightarrow> wait_err r)"

text \<open>
  The bytes of \<open>cmd.CombinedOutput()\<close>. Both streams go to one buffer; the model puts
  standard output before standard error and does not model their interleaving.
\<close>

definition CombinedOutput :: "run \<Rightarrow> bytes" where
  "CombinedOutput r = stdout r @ stderr r"

section \<open>Library functions that git.go calls\<close>

text \<open>
  White space as \<open>unicode.IsSpace\<close> sees it on ASCII: tab, line feed, vertical tab, form
  feed, carriage return and space. Go also counts U+0085, U+00A0 and further code points
  beyond ASCII, which are several bytes each in UTF-8; the model reads every byte from
  0x80 up as not white space.
\<close>

definition is_space :: "char \<Rightarrow> bool" where
  "is_space c = (of_char c \<in> {9::nat, 10, 11, 12, 13, 32})"

text \<open>\<open>strings.TrimSpace\<close> and \<open>bytes.TrimSpace\<close>.\<close>

definition TrimSpace :: "bytes \<Rightarrow> bytes" where
  "TrimSpace s = rev (dropWhile is_space (rev (dropWhile is_space s)))"

text \<open>\<open>strings.HasPrefix(s, prefix)\<close>.\<close>

definition HasPrefix :: "string \<Rightarrow> string \<Rightarrow> bool" where
  "HasPrefix s p = prefix p s"

text \<open>
  \<open>bufio.Scanner\<close> with the default split function \<open>ScanLines\<close>: the input is cut at
  each line feed, a last line without line feed counts when it is not empty, and one
  trailing carriage return is dropped from every line.
\<close>

fun split_lines :: "bytes \<Rightarrow> bytes \<Rightarrow> bytes list" where
  "split_lines cur [] = (if cur = [] then [] else [rev cur])"
| "split_lines cur (c # cs) =
     (if c = CHR 0x0A then rev cur # split_lines [] cs else split_lines (c # cur) cs)"

definition dropCR :: "bytes \<Rightarrow> bytes" where
  "dropCR s = (if s \<noteq> [] \<and> last s = CHR 0x0D then butlast s else s)"

text \<open>
  \<open>bufio.MaxScanTokenSize\<close> is 64 * 1024: a line that does not fit the buffer together
  with its line feed makes \<open>Scan()\<close> return false. \<open>listRefs\<close> never reads
  \<open>scanner.Err()\<close>, so its loop just ends there.
\<close>

definition MaxScanTokenSize :: nat where
  "MaxScanTokenSize = 64 * 1024"

definition scan_lines :: "bytes \<Rightarrow> bytes list" where
  "scan_lines data =
     map dropCR (takeWhile (\<lambda>l. length l < MaxScanTokenSize) (split_lines [] data))"

text \<open>
  \<open>fmt.Sscanf(line, "%s %s", &hash, &name)\<close>. Each \<open>%s\<close> skips white space, fails
  when nothing is left, and otherwise reads up to the next white space; the blank of
  the format takes the white space between the two words. What follows the second word
  is not looked at. The failure at the end of the input is \<open>io.EOF\<close> or
  \<open>io.ErrUnexpectedEOF\<close>; the model has one value for both.
\<close>

definition Sscanf :: "string \<Rightarrow> go_error + (string \<times> string)" where
  "Sscanf line =
     (let s1 = dropWhile is_space line in
      if s1 = [] then Inl (GoError ''unexpected EOF'')
      else
        let s2 = dropWhile is_space (dropWhile (\<lambda>c. \<not> is_space c) s1) in
        if s2 = [] then Inl (GoError ''unexpected EOF'')
        else Inr (takeWhile (\<lambda>c. \<not> is_space c) s1, takeWhile (\<lambda>c. \<not> is_space c) s2))"

section \<open>The ref comparator\<close>

text \<open>\<open>func (refs refs) Len() int\<close>\<close>

definition Len :: "refs \<Rightarrow> nat" where
  "Len rs = length rs"

text \<open>
  \<open>func (refs refs) Swap(i, j int)\<close>; an index outside the slice is a run-time panic.
\<close>

definition Swap :: "refs \<Rightarrow> nat \<Rightarrow> nat \<Rightarrow> panic + refs" where
  "Swap rs i j =
     (if length rs \<le> i \<or> length rs \<le> j then Inl (Panic ''index out of range'')
      else Inr (rs[i := rs ! j, j := rs ! i]))"

text \<open>
  \<open>func (refs refs) Less(i, j int) bool\<close>, in the order the source evaluates it:
  \<open>refs[i]\<close> is read and checked before \<open>refs[j]\<close>.
\<close>

definition Less :: "refs \<Rightarrow> nat \<Rightarrow> nat \<Rightarrow> panic + bool" where
  "Less rs i j =
     (if length rs \<le> i then Inl (Panic ''index out of range'')
      else case stat (rs ! i) of
        None \<Rightarrow> Inl (Panic (''ref '' @ hash (rs ! i) @ '' stat is nil''))
      | Some si \<Rightarrow>
          if length rs \<le> j then Inl (Panic ''index out of range'')
          else case stat (rs ! j) of
            None \<Rightarrow> Inl (Panic (''ref '' @ hash (rs ! j) @ '' stat is nil''))
          | Some sj \<Rightarrow> Inr (Unix (ModTime si) < Unix (ModTime sj)))"

section \<open>Operations on the outcome of the backing process\<close>

text \<open>\<open>updateRef\<close> after \<open>CombinedOutput()\<close> has returned.\<close>

definition updateRef_result :: "run \<Rightarrow> error option" where
  "updateRef_result r =
     (case run_err r of
        Some e \<Rightarrow>
          Some (Hierr e (''error executing git update-ref'' @ [CHR 0x0A] @ TrimSpace (CombinedOutput r)))
      | None \<Rightarrow> None)"

text \<open>\<open>removeRef\<close> after \<open>CombinedOutput()\<close> has returned.\<close>

definition removeRef_result :: "run \<Rightarrow> error option" where
  "removeRef_result r =
     (case run_err r of
        Some e \<Rightarrow>
          Some (Hierr e (''error executing git update-ref -d'' @ [CHR 0x0A] @ TrimSpace (CombinedOutput r)))
      | None \<Rightarrow> None)"

text \<open>
  \<open>writeObject\<close>, one early return per step of the pipe protocol. Standard error of the
  process is not connected to anything here.
\<close>

definition writeObject_result :: "run \<Rightarrow> error + string" where
  "writeObject_result r =
     (case stdin_pipe_err r of
        Some e \<Rightarrow> Inl (Hierr e ''can't get stdin for git hash-object'')
      | None \<Rightarrow>
     (case stdout_pipe_err r of
        Some e \<Rightarrow> Inl (Hierr e ''can't get stdout for git hash-object'')
      | None \<Rightarrow>
     (case start_err r of
        Some e \<Rightarrow> Inl (Hierr e ''can't run git hash-object'')
      | None \<Rightarrow>
     (case write_err r of
        Some e \<Rightarrow> Inl (Hierr e ''can't write data to git hash-object'')
      | None \<Rightarrow>
     (case close_err r of
        Some e \<Rightarrow> Inl (Hierr e ''can't close git hash-object stdin'')
      | None \<Rightarrow>
     (case read_err r of
        Some e \<Rightarrow> Inl (Hierr e ''can't read git hash-object result'')
      | None \<Rightarrow>
     (case wait_err r of
        Some e \<Rightarrow> Inl (Hierr e ''can't wait for git hash-object'')
      | None \<Rightarrow> Inr (TrimSpace (stdout r)))))))))"

text \<open>
  The loop of \<open>listRefs\<close> over the scanned lines. \<open>st\<close> is \<open>os.Stat\<close> after
  \<open>filepath.Join\<close>, given the path elements that the source joins.
\<close>

fun listRefs_loop ::
  "(string list \<Rightarrow> go_error + fileinfo) \<Rightarrow> string \<Rightarrow> string \<Rightarrow> refs \<Rightarrow> string list \<Rightarrow> error + refs"
where
  "listRefs_loop st path namespace refList [] = Inr refList"
| "listRefs_loop st path namespace refList (l # ls) =
     (case Sscanf l of
        Inl e \<Rightarrow> Inl (Hierr e ''can't read from git show-ref'')
      | Inr (h, n) \<Rightarrow>
          if \<not> HasPrefix n namespace then listRefs_loop st path namespace refList ls
          else
            (case st [path, ''.git'', n] of
               Inl e \<Rightarrow> Inl (Hierr e (''can't stat() ref: '' @ n))
             | Inr fi \<Rightarrow>
                 listRefs_loop st path namespace
                   (refList @ [\<lparr>name = n, hash = h, stat = Some fi\<rparr>]) ls))"

text \<open>\<open>listRefs\<close> after \<open>CombinedOutput()\<close> of \<open>git show-ref\<close> has returned.\<close>

definition listRefs ::
  "run \<Rightarrow> (string list \<Rightarrow> go_error + fileinfo) \<Rightarrow> string \<Rightarrow> string \<Rightarrow> error + refs"
where
  "listRefs r st path namespace =
     (case run_err r of
        Some e \<Rightarrow>
          Inl (Hierr e (''error executing git show-ref'' @ [CHR 0x0A] @ TrimSpace (CombinedOutput r)))
      | None \<Rightarrow> listRefs_loop st path namespace [] (scan_lines (CombinedOutput r)))"

text \<open>\<open>isGitRepo\<close> after \<open>Run()\<close> has returned.\<close>

definition isGitRepo_result :: "run \<Rightarrow> bool" where
  "isGitRepo_result r = (case run_err r of Some e \<Rightarrow> False | None \<Rightarrow> True)"

text \<open>
  \<open>clone\<close>, \<open>fetch\<close> and \<open>push\<close> after \<open>Run()\<close> has returned. The two streams of the
  process are the parent's own \<open>os.Stdout\<close> and \<open>os.Stderr\<close>; the function sees only
  the error.
\<close>

definition clone_result :: "run \<Rightarrow> string \<Rightarrow> string \<Rightarrow> error option" where
  "clone_result r path remote =
     (case run_err r of
        Some e \<Rightarrow>
          Some (Hierr e (''can't run git clone '' @ [CHR 0x27] @ remote @ [CHR 0x27] @ '' -> ''
                         @ [CHR 0x27] @ path @ [CHR 0x27]))
      | None \<Rightarrow> None)"

definition fetch_result :: "run \<Rightarrow> string \<Rightarrow> string \<Rightarrow> error option" where
  "fetch_result r remote rf =
     (case run_err r of
        Some e \<Rightarrow>
          Some (Hierr e (''can't run git fetch '' @ [CHR 0x27] @ remote @ [CHR 0x27] @ '' ''
                         @ [CHR 0x27] @ rf @ [CHR 0x27]))
      | None \<Rightarrow> None)"

definition push_result :: "run \<Rightarrow> string \<Rightarrow> string \<Rightarrow> error option" where
  "push_result r remote rf =
     (case run_err r of
        Some e \<Rightarrow>
          Some (Hierr e (''can't run git push '' @ [CHR 0x27] @ remote @ [CHR 0x27] @ '' ''
                         @ [CHR 0x27] @ rf @ [CHR 0x27]))
      | None \<Rightarrow> None)"

text \<open>\<open>catFile\<close> after \<open>CombinedOutput()\<close> has returned.\<close>

definition catFile_result :: "run \<Rightarrow> error + bytes" where
  "catFile_result r =
     (case run_err r of
        Some e \<Rightarrow>
          Inl (Hierr e (''error executing git cat-file'' @ [CHR 0x0A] @ TrimSpace (CombinedOutput r)))
      | None \<Rightarrow> Inr (CombinedOutput r))"


section \<open>Running the backing process\<close>

text \<open>The run of a process that exits with status 0 after printing \<open>out\<close>.\<close>

definition ok_run :: "bytes \<Rightarrow> run" where
  "ok_run out =
     \<lparr>stdin_pipe_err = None, stdout_pipe_err = None, start_err = None, write_err = None,
      close_err = None, read_err = None, wait_err = None, stdout = out, stderr = []\<rparr>"

text \<open>
  The run of a process that starts, prints \<open>msg\<close> on standard error and exits with a
  status other than 0, which \<open>Wait\<close> reports as \<open>e\<close>.
\<close>

definition failed_run :: "go_error \<Rightarrow> bytes \<Rightarrow> run" where
  "failed_run e msg =
     \<lparr>stdin_pipe_err = None, stdout_pipe_err = None, start_err = None, write_err = None,
      close_err = None, read_err = None, wait_err = Some e, stdout = [], stderr = msg\<rparr>"

text \<open>The run of a process that could not be started.\<close>

definition unstarted_run :: "go_error \<Rightarrow> run" where
  "unstarted_run e =
     \<lparr>stdin_pipe_err = None, stdout_pipe_err = None, start_err = Some e, write_err = None,
      close_err = None, read_err = None, wait_err = None, stdout = [], stderr = []\<rparr>"

text \<open>
  Modelled from the spec: the backing store is an external program that git.go starts
  once per operation; its behaviour is not part of git.go. Section 6 of the spec names
  the primitives: content-address-and-store(bytes) returns the hash string,
  retrieve-by-hash(hash) returns the raw bytes, atomic-update-ref(name, hash) creates or
  replaces, atomic-delete-ref(name) fails if absent, push(remote, refPattern[, prune])
  where prune removes remote refs that match and no longer exist locally. The state they
  act on is the replica (objects and refs) and the refs of each remote. \<open>digest\<close> is the
  content hash and \<open>matches pattern name\<close> the matching of a ref pattern, neither of
  which the spec fixes; \<open>git_present\<close> says whether the program can be started at all.
\<close>

record world =
  git_present :: bool
  digest :: "bytes \<Rightarrow> string"
  matches :: "string \<Rightarrow> string \<Rightarrow> bool"
  objects :: "string \<rightharpoonup> bytes"
  local_refs :: "string \<rightharpoonup> string"
  remote_refs :: "string \<Rightarrow> string \<rightharpoonup> string"

text \<open>
  Modelled from the spec: content-address-and-store. The payload is stored under its
  hash unless an object of that hash is there already (storage is deduplicated by
  content), and the hash is printed on a line of its own.
\<close>

definition git_hash_object :: "world \<Rightarrow> bytes \<Rightarrow> run \<times> world" where
  "git_hash_object w input =
     (let h = digest w input in
      (ok_run (h @ [CHR 0x0A]),
       if objects w h = None then w\<lparr>objects := (objects w)(h \<mapsto> input)\<rparr> else w))"

text \<open>Modelled from the spec: retrieve-by-hash, which fails when no object has the hash.\<close>

definition git_cat_file :: "world \<Rightarrow> string \<Rightarrow> run \<times> world" where
  "git_cat_file w h =
     (case objects w h of
        Some d \<Rightarrow> (ok_run d, w)
      | None \<Rightarrow>
          (failed_run (GoError ''exit status 128'')
             (''fatal: Not a valid object name '' @ h @ [CHR 0x0A]), w))"

text \<open>Modelled from the spec: atomic-update-ref, create or replace.\<close>

definition git_update_ref :: "world \<Rightarrow> string \<Rightarrow> string \<Rightarrow> run \<times> world" where
  "git_update_ref w n h = (ok_run [], w\<lparr>local_refs := (local_refs w)(n \<mapsto> h)\<rparr>)"

text \<open>Modelled from the spec: atomic-delete-ref, which fails if the ref is absent.\<close>

definition git_delete_ref :: "world \<Rightarrow> string \<Rightarrow> run \<times> world" where
  "git_delete_ref w n =
     (case local_refs w n of
        None \<Rightarrow>
          (failed_run (GoError ''exit status 1'')
             (''error: cannot delete ref '' @ n @ [CHR 0x0A]), w)
      | Some h \<Rightarrow> (ok_run [], w\<lparr>local_refs := (local_refs w)(n := None)\<rparr>))"

text \<open>
  Modelled from the spec: push. Every local ref that matches the pattern is written to
  the remote; with prune, a remote ref that matches and does not exist locally is
  deleted; every other remote ref stays as it is. The transfer of objects is left out.
\<close>

definition git_push :: "world \<Rightarrow> string \<Rightarrow> string \<Rightarrow> bool \<Rightarrow> run \<times> world" where
  "git_push w remote pattern prune =
     (ok_run [],
      w\<lparr>remote_refs := (remote_refs w)(remote :=
          (\<lambda>n. if matches w pattern n
                then (case local_refs w n of
                        Some h \<Rightarrow> Some h
                      | None \<Rightarrow> if prune then None else remote_refs w remote n)
                else remote_refs w remote n))\<rparr>)"

text \<open>
  The error of \<open>exec.Cmd\<close> when no program of the name \<open>git\<close> is in the path.
\<close>

definition exec_not_found :: go_error where
  "exec_not_found =
     GoError (''exec: '' @ [CHR 0x22] @ ''git'' @ [CHR 0x22] @ '': executable file not found in $PATH'')"

text \<open>
  Modelled from the spec: the command line of the backing program, for the commands
  whose effect on the state is modelled above. \<open>exec.Command\<close> cannot start a program
  that is not there; a command line outside the five forms is a usage error.
\<close>

definition git :: "world \<Rightarrow> string list \<Rightarrow> bytes \<Rightarrow> run \<times> world" where
  "git w args input =
     (if \<not> git_present w
      then (unstarted_run exec_not_found, w)
      else if length args < 4 \<or> take 2 args \<noteq> [''git'', ''-C'']
      then (failed_run (GoError ''exit status 129'') ''usage: git'', w)
      else
        let a = drop 3 args in
        if a = [''hash-object'', ''-w'', ''--stdin''] then git_hash_object w input
        else if length a = 3 \<and> a ! 0 = ''cat-file'' \<and> a ! 1 = ''-p'' then git_cat_file w (a ! 2)
        else if length a = 3 \<and> a ! 0 = ''update-ref'' \<and> a ! 1 = ''-d'' then git_delete_ref w (a ! 2)
        else if length a = 3 \<and> a ! 0 = ''update-ref'' then git_update_ref w (a ! 1) (a ! 2)
        else if length a = 3 \<and> a ! 0 = ''push'' then git_push w (a ! 1) (a ! 2) False
        else if length a = 4 \<and> a ! 0 = ''push'' \<and> a ! 3 = ''--prune''
        then git_push w (a ! 1) (a ! 2) True
        else (failed_run (GoError ''exit status 129'') ''usage: git'', w))"

text \<open>
  Modelled from the spec: what the backing program reads from the options of a clone,
  as section 6 names them: shallow-bare-no-checkout-clone(remote, depth=1). Options come
  before the two positional arguments, the remote and the directory.
\<close>

record clone_request =
  clone_depth :: "nat option"
  clone_bare :: bool
  clone_no_checkout :: bool
  clone_remote :: string
  clone_dir :: string

text \<open>The value of a string of decimal digits, after the digits read so far.\<close>

fun decimal :: "nat \<Rightarrow> string \<Rightarrow> nat option" where
  "decimal acc [] = Some acc"
| "decimal acc (c # cs) =
     (if 48 \<le> (of_char c :: nat) \<and> (of_char c :: nat) \<le> 57
      then decimal (10 * acc + (of_char c - 48)) cs
      else None)"

text \<open>
  Modelled from the spec: the arguments after \<open>clone\<close>. \<open>--bare\<close> asks for a bare
  replica, \<open>-n\<close> or \<open>--no-checkout\<close> for no working tree, \<open>--depth=N\<close> for a history
  of depth N; any other argument that starts with a dash is refused; the first argument
  that does not is the remote and must be followed by the directory alone.
\<close>

fun clone_options :: "clone_request \<Rightarrow> string list \<Rightarrow> clone_request option" where
  "clone_options req [] = None"
| "clone_options req (a # as) =
     (if a = ''--bare'' then clone_options (req\<lparr>clone_bare := True\<rparr>) as
      else if a = ''-n'' \<or> a = ''--no-checkout''
      then clone_options (req\<lparr>clone_no_checkout := True\<rparr>) as
      else if prefix ''--depth='' a
      then (if length a = 8 then None
            else case decimal 0 (drop 8 a) of
              None \<Rightarrow> None
            | Some d \<Rightarrow> clone_options (req\<lparr>clone_depth := Some d\<rparr>) as)
      else if prefix ''-'' a then None
      else (case as of
              [t] \<Rightarrow> Some (req\<lparr>clone_remote := a, clone_dir := t\<rparr>)
            | _ \<Rightarrow> None))"

text \<open>
  Modelled from the spec: a command line \<open>git -C dir clone ...\<close> read as a clone
  request, starting from no depth limit, not bare, with checkout.
\<close>

definition git_clone_request :: "string list \<Rightarrow> clone_request option" where
  "git_clone_request args =
     (if length args < 4 \<or> take 2 args \<noteq> [''git'', ''-C''] \<or> args ! 3 \<noteq> ''clone'' then None
      else clone_options
             \<lparr>clone_depth = None, clone_bare = False, clone_no_checkout = False,
              clone_remote = [], clone_dir = []\<rparr>
             (drop 4 args))"

section \<open>The operations of git.go on the replica\<close>

text \<open>\<open>const PushPrune = true\<close> and \<open>PushNoPrune = false\<close>.\<close>

definition PushPrune :: bool where
  "PushPrune = True"

definition PushNoPrune :: bool where
  "PushNoPrune = False"

text \<open>
  Each operation builds the argument list of \<open>exec.Command\<close> as the source does, runs
  it on the replica at \<open>path\<close>, and treats the outcome as above.
\<close>

definition updateRef :: "world \<Rightarrow> string \<Rightarrow> string \<Rightarrow> string \<Rightarrow> error option \<times> world" where
  "updateRef w path refName pointer =
     (let (r, w') = git w [''git'', ''-C'', path, ''update-ref'', refName, pointer] []
      in (updateRef_result r, w'))"

definition removeRef :: "world \<Rightarrow> string \<Rightarrow> string \<Rightarrow> error option \<times> world" where
  "removeRef w path refName =
     (let (r, w') = git w [''git'', ''-C'', path, ''update-ref'', ''-d'', refName] []
      in (removeRef_result r, w'))"

definition writeObject :: "world \<Rightarrow> string \<Rightarrow> bytes \<Rightarrow> (error + string) \<times> world" where
  "writeObject w path data =
     (let (r, w') = git w [''git'', ''-C'', path, ''hash-object'', ''-w'', ''--stdin''] data
      in (writeObject_result r, w'))"

definition catFile :: "world \<Rightarrow> string \<Rightarrow> string \<Rightarrow> (error + bytes) \<times> world" where
  "catFile w path h =
     (let (r, w') = git w [''git'', ''-C'', path, ''cat-file'', ''-p'', h] []
      in (catFile_result r, w'))"

definition clone_command :: "string \<Rightarrow> string \<Rightarrow> string list" where
  "clone_command path remote =
     [''git'', ''-C'', path, ''clone'', ''--depth=1'', ''--bare'', ''-n'', remote, path]"

definition push_command :: "string \<Rightarrow> string \<Rightarrow> string \<Rightarrow> bool \<Rightarrow> string list" where
  "push_command path remote rf prune =
     [''git'', ''-C'', path, ''push'', remote, rf] @ (if prune then [''--prune''] else [])"

definition push :: "world \<Rightarrow> string \<Rightarrow> string \<Rightarrow> string \<Rightarrow> bool \<Rightarrow> error option \<times> world" where
  "push w path remote rf prune =
     (let (r, w') = git w (push_command path remote rf prune) []
      in (push_result r remote rf, w'))"

section \<open>Listings and ordered views\<close>

text \<open>
  What \<open>git show-ref\<close> prints for the refs \<open>es\<close>, each a pair of hash and name: one
  line per ref, the hash, a blank, the name. A word is a non-empty run of printable
  ASCII characters other than the blank. An entry is well formed when both its parts
  are words and its line fits the scanner.
\<close>

definition ascii_word :: "string \<Rightarrow> bool" where
  "ascii_word s = (s \<noteq> [] \<and> (\<forall>c\<in>set s. 32 < (of_char c :: nat) \<and> (of_char c :: nat) < 127))"

definition show_ref_line :: "string \<times> string \<Rightarrow> bytes" where
  "show_ref_line e = fst e @ '' '' @ snd e"

definition show_ref_listing :: "(string \<times> string) list \<Rightarrow> bytes" where
  "show_ref_listing es = concat (map (\<lambda>e. show_ref_line e @ [CHR 0x0A]) es)"

definition listing_entry :: "string \<times> string \<Rightarrow> bool" where
  "listing_entry e =
     (ascii_word (fst e) \<and> ascii_word (snd e) \<and> length (show_ref_line e) < MaxScanTokenSize)"

text \<open>
  The refs of a listing under a namespace, in the order of the listing, each with the
  file information \<open>mt\<close> has for its name.
\<close>

definition listed :: "string \<Rightarrow> (string \<Rightarrow> fileinfo) \<Rightarrow> (string \<times> string) list \<Rightarrow> refs" where
  "listed namespace mt es =
     map (\<lambda>e. \<lparr>name = snd e, hash = fst e, stat = Some (mt (snd e))\<rparr>)
       (filter (\<lambda>e. HasPrefix (snd e) namespace) es)"

text \<open>File information with the given modification time.\<close>

definition stat_at :: "int \<Rightarrow> nat \<Rightarrow> fileinfo" where
  "stat_at s n = \<lparr>ModTime = Time s n\<rparr>"

text \<open>The comparator on two refs: \<open>Less\<close> on the slice of the two, first against second.\<close>

definition less_ref :: "ref \<Rightarrow> ref \<Rightarrow> panic + bool" where
  "less_ref a b = Less [a, b] 0 1"

text \<open>Two refs are tied when the comparator puts neither before the other.\<close>

definition tied :: "ref \<Rightarrow> ref \<Rightarrow> bool" where
  "tied a b = (less_ref a b = Inr False \<and> less_ref b a = Inr False)"

text \<open>
  git.go gives \<open>refs\<close> the three methods of \<open>sort.Interface\<close>; the call that sorts
  a listing is not in git.go. What package \<open>sort\<close> promises for any such call is that
  the data ends "in ascending order as determined by the Less method": \<open>Less\<close>, called
  on the sorted slice, puts no element before an earlier one, and does not panic.
\<close>

definition ascending :: "refs \<Rightarrow> bool" where
  "ascending rs = (\<forall>j<length rs. \<forall>i<j. Less rs j i = Inr False)"

text \<open>
  An ordered view of the listing \<open>xs\<close>: the same refs, ascending. Both \<open>sort.Sort\<close>
  and \<open>sort.Stable\<close> end in one.
\<close>

definition ordered_view :: "refs \<Rightarrow> refs \<Rightarrow> bool" where
  "ordered_view xs ys = (mset ys = mset xs \<and> ascending ys)"

text \<open>
  Modelled from the spec: section 4.4 says of the sort, whose call is not in git.go,
  "this is a stable sort". A stable view is an ordered view that keeps the refs tied
  with any one ref in the order in which the listing has them, as \<open>sort.Stable\<close>
  does.
\<close>

definition stable_view :: "refs \<Rightarrow> refs \<Rightarrow> bool" where
  "stable_view xs ys =
     (ordered_view xs ys \<and> (\<forall>r\<in>set xs. filter (tied r) ys = filter (tied r) xs))"

text \<open>The whole seconds the comparator reads from a ref that has file information.\<close>

definition seconds :: "ref \<Rightarrow> int" where
  "seconds r = (case stat r of Some s \<Rightarrow> Unix (ModTime s) | None \<Rightarrow> 0)"

text \<open>
  A content hash as the store prints it: a non-empty word of the digits 0 to 9 and the
  letters a to f.
\<close>

definition hex_digest :: "string \<Rightarrow> bool" where
  "hex_digest h =
     (h \<noteq> [] \<and>
      (\<forall>c\<in>set h. (48 \<le> (of_char c :: nat) \<and> (of_char c :: nat) \<le> 57)
                  \<or> (97 \<le> (of_char c :: nat) \<and> (of_char c :: nat) \<le> 102)))"

text \<open>
  A replica for examples: two payloads have fixed hashes, a pattern matches the names it
  is a prefix of, no object is stored, the local refs are \<open>refs\<close>, and every remote
  has the refs \<open>there\<close>.
\<close>

definition replica :: "bool \<Rightarrow> (string \<times> string) list \<Rightarrow> (string \<times> string) list \<Rightarrow> world" where
  "replica present refs there =
     \<lparr>git_present = present, digest = (\<lambda>d. if d = ''task-1'' then ''0a1b'' else ''ffff''),
      matches = (\<lambda>p n. prefix p n), objects = Map.empty, local_refs = map_of refs,
      remote_refs = (\<lambda>r. map_of there)\<rparr>"

section \<open>Scanning a listing\<close>

lemma ascii_word_not_space: "ascii_word s \<Longrightarrow> c \<in> set s \<Longrightarrow> \<not> is_space c"
  by (auto simp: ascii_word_def is_space_def)

lemma ascii_word_no_LF: "ascii_word s \<Longrightarrow> CHR 0x0A \<notin> set s"
  by (auto simp: ascii_word_def)

lemma ascii_word_last: "ascii_word s \<Longrightarrow> last s \<noteq> CHR 0x0D"
proof
  assume a: "ascii_word s" and l: "last s = CHR 0x0D"
  from a have "s \<noteq> []" by (simp add: ascii_word_def)
  then have "last s \<in> set s" by simp
  with a l show False by (auto simp: ascii_word_def)
qed

lemma is_space_blank: "is_space CHR '' ''"
  by (simp add: is_space_def)

lemma split_lines_line:
  "CHR 0x0A \<notin> set l \<Longrightarrow> split_lines cur (l @ CHR 0x0A # rest) = (rev cur @ l) # split_lines [] rest"
  by (induction l arbitrary: cur) auto

lemma line_no_LF: "listing_entry e \<Longrightarrow> CHR 0x0A \<notin> set (show_ref_line e)"
  by (auto simp: listing_entry_def show_ref_line_def dest: ascii_word_no_LF)

lemma split_lines_listing:
  "\<forall>e\<in>set es. listing_entry e \<Longrightarrow> split_lines [] (show_ref_listing es) = map show_ref_line es"
  by (induction es) (auto simp: show_ref_listing_def split_lines_line line_no_LF)

lemma dropCR_line: "listing_entry e \<Longrightarrow> dropCR (show_ref_line e) = show_ref_line e"
  using ascii_word_last [of "snd e"]
  by (auto simp: listing_entry_def show_ref_line_def dropCR_def ascii_word_def)

lemma scan_lines_listing:
  assumes "\<forall>e\<in>set es. listing_entry e"
  shows "scan_lines (show_ref_listing es) = map show_ref_line es"
proof -
  have "\<forall>l\<in>set (map show_ref_line es). length l < MaxScanTokenSize"
    using assms by (auto simp: listing_entry_def)
  then have t: "takeWhile (\<lambda>l. length l < MaxScanTokenSize) (map show_ref_line es) = map show_ref_line es"
    by (simp only: takeWhile_eq_all_conv)
  have d: "map dropCR (map show_ref_line es) = map show_ref_line es"
    using assms by (induction es) (auto simp: dropCR_line)
  show ?thesis
    unfolding scan_lines_def split_lines_listing [OF assms] t d ..
qed

lemma dropWhile_word: "ascii_word s \<Longrightarrow> dropWhile is_space (s @ t) = s @ t"
  by (cases s) (auto simp: ascii_word_def is_space_def)

lemma takeWhile_word:
  "ascii_word s \<Longrightarrow> takeWhile (\<lambda>c. \<not> is_space c) (s @ CHR '' '' # t) = s"
  by (simp add: takeWhile_append2 ascii_word_not_space is_space_blank)

lemma takeWhile_word_end:
  "ascii_word s \<Longrightarrow> takeWhile (\<lambda>c. \<not> is_space c) s = s"
  by (simp add: takeWhile_eq_all_conv ascii_word_not_space)

lemma dropWhile_word_blank:
  "ascii_word s \<Longrightarrow> dropWhile (\<lambda>c. \<not> is_space c) (s @ CHR '' '' # t) = CHR '' '' # t"
  by (simp add: dropWhile_append2 ascii_word_not_space is_space_blank)

lemma Sscanf_line:
  assumes "listing_entry e"
  shows "Sscanf (show_ref_line e) = Inr (fst e, snd e)"
proof -
  from assms have h: "ascii_word (fst e)" and n: "ascii_word (snd e)"
    by (simp_all add: listing_entry_def)
  have n0: "snd e \<noteq> []" and h0: "fst e \<noteq> []" using n h by (simp_all add: ascii_word_def)
  have 1: "dropWhile is_space (fst e @ CHR '' '' # snd e) = fst e @ CHR '' '' # snd e"
    using dropWhile_word [OF h] by simp
  have 2: "dropWhile is_space (CHR '' '' # snd e) = snd e"
    using dropWhile_word [OF n, of "[]"] by (simp add: is_space_blank)
  show ?thesis
    using h0 n0
    by (simp add: Sscanf_def show_ref_line_def Let_def 1 2 dropWhile_word_blank [OF h]
        takeWhile_word [OF h] takeWhile_word_end [OF n] del: dropWhile.simps)
qed

lemma listRefs_loop_listing:
  assumes "\<forall>e\<in>set es. listing_entry e"
    and "\<forall>e\<in>set es. HasPrefix (snd e) namespace \<longrightarrow> st [path, ''.git'', snd e] = Inr (mt (snd e))"
  shows "listRefs_loop st path namespace acc (map show_ref_line es) = Inr (acc @ listed namespace mt es)"
  using assms
  by (induction es arbitrary: acc) (auto simp: Sscanf_line listed_def)

lemma listRefs_listing:
  assumes "run_err r = None"
    and "CombinedOutput r = show_ref_listing es"
    and "\<forall>e\<in>set es. listing_entry e"
    and "\<forall>e\<in>set es. HasPrefix (snd e) namespace \<longrightarrow> st [path, ''.git'', snd e] = Inr (mt (snd e))"
  shows "listRefs r st path namespace = Inr (listed namespace mt es)"
  using assms listRefs_loop_listing [of es namespace st path mt "[]"]
  by (simp add: listRefs_def scan_lines_listing)

section \<open>File information of listed refs\<close>

lemma listRefs_loop_stat:
  "listRefs_loop st path namespace acc ls = Inr rs \<Longrightarrow> \<forall>x\<in>set acc. stat x \<noteq> None
   \<Longrightarrow> \<forall>x\<in>set rs. stat x \<noteq> None"
proof (induction ls arbitrary: acc)
  case Nil
  then show ?case by simp
next
  case (Cons l ls)
  show ?case
  proof (cases "Sscanf l")
    case (Inl e)
    with Cons.prems show ?thesis by simp
  next
    case (Inr hn)
    obtain h n where hn: "hn = (h, n)" by (cases hn)
    show ?thesis
    proof (cases "HasPrefix n namespace")
      case False
      with Cons Inr hn show ?thesis by simp
    next
      case True
      show ?thesis
      proof (cases "st [path, ''.git'', n]")
        case (Inl e)
        with Cons.prems Inr hn True show ?thesis by simp
      next
        case st: (Inr fi)
        have "listRefs_loop st path namespace (acc @ [\<lparr>name = n, hash = h, stat = Some fi\<rparr>]) ls = Inr rs"
          using Cons.prems(1) Inr hn True st by simp
        moreover have "\<forall>x\<in>set (acc @ [\<lparr>name = n, hash = h, stat = Some fi\<rparr>]). stat x \<noteq> None"
          using Cons.prems(2) by simp
        ultimately show ?thesis by (rule Cons.IH)
      qed
    qed
  qed
qed

lemma listRefs_stat:
  "listRefs r st path namespace = Inr rs \<Longrightarrow> \<forall>x\<in>set rs. stat x \<noteq> None"
  using listRefs_loop_stat [of st path namespace "[]" "scan_lines (CombinedOutput r)" rs]
  by (auto simp: listRefs_def split: option.splits)

lemma listRefs_loop_append:
  "listRefs_loop st path namespace acc (ls1 @ ls2) =
     (case listRefs_loop st path namespace acc ls1 of
        Inl e \<Rightarrow> Inl e
      | Inr acc' \<Rightarrow> listRefs_loop st path namespace acc' ls2)"
  by (induction ls1 arbitrary: acc) (auto split: sum.splits)

lemma listRefs_stat_failure:
  assumes "run_err r = None"
    and "CombinedOutput r = show_ref_listing (es1 @ e # es2)"
    and "\<forall>x\<in>set (es1 @ e # es2). listing_entry x"
    and "\<forall>x\<in>set es1. HasPrefix (snd x) namespace \<longrightarrow> st [path, ''.git'', snd x] = Inr (mt (snd x))"
    and "HasPrefix (snd e) namespace"
    and "st [path, ''.git'', snd e] = Inl err"
  shows "listRefs r st path namespace = Inl (Hierr err (''can't stat() ref: '' @ snd e))"
proof -
  have 1: "listRefs_loop st path namespace [] (map show_ref_line es1) = Inr (listed namespace mt es1)"
    using listRefs_loop_listing [of es1 namespace st path mt "[]"] assms(3,4) by simp
  have 2: "Sscanf (show_ref_line e) = Inr (fst e, snd e)"
    using assms(3) by (simp add: Sscanf_line)
  have "listRefs_loop st path namespace [] (map show_ref_line (es1 @ e # es2)) =
        Inl (Hierr err (''can't stat() ref: '' @ snd e))"
    using 1 2 assms(5,6) by (cases e) (simp add: listRefs_loop_append)
  then show ?thesis
    using assms(1,2,3) by (simp add: listRefs_def scan_lines_listing)
qed

lemma Less_panics:
  "i < length rs \<Longrightarrow> j < length rs \<Longrightarrow>
   (\<exists>p. Less rs i j = Inl p) = (stat (rs ! i) = None \<or> stat (rs ! j) = None)"
  by (auto simp: Less_def split: option.splits)

section \<open>The comparator and ordered views\<close>

lemma less_ref_seconds:
  "stat a \<noteq> None \<Longrightarrow> stat b \<noteq> None \<Longrightarrow> less_ref a b = Inr (seconds a < seconds b)"
  by (auto simp: less_ref_def Less_def seconds_def)

lemma Less_seconds:
  "\<forall>x\<in>set rs. stat x \<noteq> None \<Longrightarrow> i < length rs \<Longrightarrow> j < length rs
   \<Longrightarrow> Less rs i j = Inr (seconds (rs ! i) < seconds (rs ! j))"
proof -
  assume a: "\<forall>x\<in>set rs. stat x \<noteq> None" and i: "i < length rs" and j: "j < length rs"
  then have "stat (rs ! i) \<noteq> None" "stat (rs ! j) \<noteq> None" by simp_all
  then show ?thesis using i j by (auto simp: Less_def seconds_def)
qed


lemma ascending_sorted:
  assumes "\<forall>x\<in>set rs. stat x \<noteq> None"
  shows "ascending rs = sorted (map seconds rs)"
proof
  assume a: "ascending rs"
  show "sorted (map seconds rs)"
    unfolding sorted_iff_nth_mono_less
  proof (intro allI impI)
    fix i j assume ij: "i < j" "j < length (map seconds rs)"
    then have "Less rs j i = Inr False" using a by (simp add: ascending_def)
    moreover have "Less rs j i = Inr (seconds (rs ! j) < seconds (rs ! i))"
      using Less_seconds [OF assms, of j i] ij by simp
    ultimately show "map seconds rs ! i \<le> map seconds rs ! j" using ij by simp
  qed
next
  assume s: "sorted (map seconds rs)"
  show "ascending rs"
    unfolding ascending_def
  proof (intro allI impI)
    fix j i assume ij: "j < length rs" "i < j"
    then have "map seconds rs ! i \<le> map seconds rs ! j"
      using s by (simp add: sorted_iff_nth_mono_less)
    then have "\<not> seconds (rs ! j) < seconds (rs ! i)" using ij by simp
    then show "Less rs j i = Inr False"
      using Less_seconds [OF assms, of j i] ij by simp
  qed
qed

lemma ordered_view_unique:
  assumes st: "\<forall>x\<in>set xs. stat x \<noteq> None"
    and ov: "ordered_view xs ys"
    and ms: "mset cs = mset xs"
    and chrono: "sorted_wrt (\<lambda>a b. less_ref a b = Inr True) cs"
  shows "ys = cs"
proof -
  have sets: "set cs = set xs" "set ys = set xs"
    using ms ov by (auto simp: ordered_view_def dest: mset_eq_setD)
  have stc: "\<forall>x\<in>set cs. stat x \<noteq> None" and sty: "\<forall>x\<in>set ys. stat x \<noteq> None"
    using st sets by auto
  have "sorted_wrt (\<lambda>a b. seconds a < seconds b) cs"
    using chrono stc by (auto simp: less_ref_seconds elim!: sorted_wrt_mono_rel [rotated])
  then have "sorted_wrt (<) (map seconds cs)" by (simp add: sorted_wrt_map)
  then have sc: "sorted (map seconds cs)" and dc: "distinct (map seconds cs)"
    by (simp_all add: strict_sorted_iff)
  have sy: "sorted (map seconds ys)"
    using ov ascending_sorted [OF sty] by (simp add: ordered_view_def)
  have "mset (map seconds ys) = mset (map seconds cs)"
    using ov ms by (simp add: ordered_view_def)
  then have dy: "distinct (map seconds ys)"
    using dc mset_eq_imp_distinct_iff by blast
  have inj: "inj_on seconds (set ys \<union> set cs)"
    using dc sets by (simp add: distinct_map)
  show ?thesis
    using map_sorted_distinct_set_unique [OF inj sy dy sc dc] sets by simp
qed



lemma ascending_two:
  "ascending [a, b] = (Less [a, b] 1 0 = Inr False)"
  by (auto simp: ascending_def less_Suc_eq)

section \<open>The backing process\<close>

lemma hex_not_space: "hex_digest h \<Longrightarrow> c \<in> set h \<Longrightarrow> \<not> is_space c"
  by (fastforce simp: hex_digest_def is_space_def)

lemma TrimSpace_digest_line:
  assumes "hex_digest h"
  shows "TrimSpace (h @ [CHR 0x0A]) = h"
proof -
  from assms have ne: "h \<noteq> []" by (simp add: hex_digest_def)
  then have "hd h \<in> set h" "last h \<in> set h" by simp_all
  then have f: "\<not> is_space (hd h)" and l: "\<not> is_space (last h)"
    using assms hex_not_space by blast+
  have 1: "dropWhile is_space (h @ [CHR 0x0A]) = h @ [CHR 0x0A]"
    using ne f by (cases h) simp_all
  have "hd (rev h) = last h" using ne by (simp add: hd_rev)
  then have 2: "dropWhile is_space (rev h) = rev h"
    using l by (simp add: dropWhile_eq_self_iff)
  show ?thesis
    by (simp add: TrimSpace_def 1 2 is_space_def)
qed

lemma git_hash_object_cmd:
  "git_present w \<Longrightarrow>
   git w [''git'', ''-C'', path, ''hash-object'', ''-w'', ''--stdin''] input = git_hash_object w input"
  by (simp add: git_def)

lemma git_cat_file_cmd:
  "git_present w \<Longrightarrow>
   git w [''git'', ''-C'', path, ''cat-file'', ''-p'', h] input = git_cat_file w h"
  by (simp add: git_def)

lemma git_delete_ref_cmd:
  "git_present w \<Longrightarrow>
   git w [''git'', ''-C'', path, ''update-ref'', ''-d'', n] input = git_delete_ref w n"
  by (simp add: git_def)

lemma git_push_cmd:
  "git_present w \<Longrightarrow>
   git w (push_command path remote rf prune) input = git_push w remote rf prune"
  by (simp add: git_def push_command_def)


lemma ok_run_fields:
  "run_err (ok_run out) = None" "CombinedOutput (ok_run out) = out"
  "writeObject_result (ok_run out) = Inr (TrimSpace out)"
  by (simp_all add: ok_run_def run_err_def CombinedOutput_def writeObject_result_def)

lemma failed_run_fields:
  "run_err (failed_run e msg) = Some e" "CombinedOutput (failed_run e msg) = msg"
  by (simp_all add: failed_run_def run_err_def CombinedOutput_def)


lemma removeRef_present:
  "git_present w \<Longrightarrow> local_refs w n = Some h \<Longrightarrow>
   removeRef w path n = (None, w\<lparr>local_refs := (local_refs w)(n := None)\<rparr>)"
  by (simp add: removeRef_def git_delete_ref_cmd git_delete_ref_def removeRef_result_def
      ok_run_fields)



lemma push_run:
  "git_present w \<Longrightarrow>
   push w path remote rf prune = (None, snd (git_push w remote rf prune))"
  by (simp add: push_def git_push_cmd git_push_def push_result_def ok_run_fields)

lemma writeObject_result_failure:
  "run_err r = Some e \<Longrightarrow>
   \<exists>e' m. writeObject_result (r\<lparr>stdout := out, stderr := msg\<rparr>) = Inl (Hierr e' m)
         \<and> writeObject_result r = Inl (Hierr e' m)"
  by (auto simp: writeObject_result_def run_err_def split: option.splits)

section \<open>Claims about listing refs\<close>

text \<open>
  C4. For every namespace prefix, \<open>listRefs\<close> returns exactly the refs whose name
  starts with the prefix, none outside it and none inside it dropped, each with the
  file information of its name: when \<open>git show-ref\<close> succeeds and prints a well-formed
  listing \<open>es\<close>, and the file of every ref under the prefix can be stat'ed, the result
  is the entries of \<open>es\<close> under the prefix, in the order of the listing, each with its
  name, its hash and its file information.
\<close>

theorem listRefs_exactly_prefixed:
  assumes "run_err r = None"
    and "CombinedOutput r = show_ref_listing es"
    and "\<forall>e\<in>set es. listing_entry e"
    and "\<forall>e\<in>set es. HasPrefix (snd e) namespace \<longrightarrow> st [path, ''.git'', snd e] = Inr (mt (snd e))"
  shows "listRefs r st path namespace =
           Inr (map (\<lambda>e. \<lparr>name = snd e, hash = fst e, stat = Some (mt (snd e))\<rparr>)
                  (filter (\<lambda>e. prefix namespace (snd e)) es))"
  using listRefs_listing [OF assms] by (simp add: listed_def HasPrefix_def)

theorem listRefs_exactly_prefixed_witness:
  "listRefs (ok_run (show_ref_listing [(''1111'', ''refs/q/a''), (''2222'', ''refs/heads/main''), (''3333'', ''refs/q/b'')]))
     (\<lambda>p. Inr (stat_at 100 0)) ''/repo'' ''refs/q/'' =
   Inr [\<lparr>name = ''refs/q/a'', hash = ''1111'', stat = Some (stat_at 100 0)\<rparr>,
        \<lparr>name = ''refs/q/b'', hash = ''3333'', stat = Some (stat_at 100 0)\<rparr>]"
  using listRefs_exactly_prefixed
    [of "ok_run (show_ref_listing [(''1111'', ''refs/q/a''), (''2222'', ''refs/heads/main''), (''3333'', ''refs/q/b'')])"
        "[(''1111'', ''refs/q/a''), (''2222'', ''refs/heads/main''), (''3333'', ''refs/q/b'')]"
        "''refs/q/''" "\<lambda>p. Inr (stat_at 100 0)" "''/repo''" "\<lambda>n. stat_at 100 0"]
  by (simp add: ok_run_def run_err_def CombinedOutput_def listing_entry_def ascii_word_def
      show_ref_line_def MaxScanTokenSize_def HasPrefix_def)

text \<open>
  C10. The namespace filter of \<open>listRefs\<close> is a comparison of the first bytes of the
  name with the prefix and knows no path separator: under the same conditions the names
  returned are those names of the listing whose first \<open>length namespace\<close> bytes are the
  namespace, and with the empty namespace they are all names of the listing. So the
  prefix \<open>refs/q\<close> takes the ref \<open>refs/queue/x\<close> as well.
\<close>

theorem namespace_is_raw_prefix:
  assumes "run_err r = None"
    and "CombinedOutput r = show_ref_listing es"
    and "\<forall>e\<in>set es. listing_entry e"
    and "\<forall>e\<in>set es. HasPrefix (snd e) namespace \<longrightarrow> st [path, ''.git'', snd e] = Inr (mt (snd e))"
  shows "\<exists>rs. listRefs r st path namespace = Inr rs
           \<and> map name rs = filter (\<lambda>n. take (length namespace) n = namespace) (map snd es)
           \<and> (namespace = [] \<longrightarrow> map name rs = map snd es)"
proof -
  have p: "HasPrefix n namespace = (take (length namespace) n = namespace)" for n
  proof
    assume "HasPrefix n namespace"
    then obtain zs where "n = namespace @ zs" by (auto simp: HasPrefix_def prefix_def)
    then show "take (length namespace) n = namespace" by simp
  next
    assume t: "take (length namespace) n = namespace"
    have "prefix (take (length namespace) n) n" by (rule take_is_prefix)
    then show "HasPrefix n namespace" by (simp add: t HasPrefix_def)
  qed
  have "map name (listed namespace mt es) =
        filter (\<lambda>n. take (length namespace) n = namespace) (map snd es)"
    by (induction es) (simp_all add: listed_def p)
  then show ?thesis
    using listRefs_listing [OF assms] by auto
qed

theorem namespace_is_raw_prefix_witness:
  "(\<exists>rs. listRefs (ok_run (show_ref_listing [(''1111'', ''refs/queue/x''), (''2222'', ''refs/heads/main'')]))
            (\<lambda>p. Inr (stat_at 100 0)) ''/repo'' ''refs/q'' = Inr rs
        \<and> map name rs = [''refs/queue/x'']) \<and>
   (\<exists>rs. listRefs (ok_run (show_ref_listing [(''1111'', ''refs/queue/x''), (''2222'', ''refs/heads/main'')]))
            (\<lambda>p. Inr (stat_at 100 0)) ''/repo'' [] = Inr rs
        \<and> map name rs = [''refs/queue/x'', ''refs/heads/main''])"
  using namespace_is_raw_prefix
    [of "ok_run (show_ref_listing [(''1111'', ''refs/queue/x''), (''2222'', ''refs/heads/main'')])"
        "[(''1111'', ''refs/queue/x''), (''2222'', ''refs/heads/main'')]"
        "''refs/q''" "\<lambda>p. Inr (stat_at 100 0)" "''/repo''" "\<lambda>n. stat_at 100 0"]
    namespace_is_raw_prefix
    [of "ok_run (show_ref_listing [(''1111'', ''refs/queue/x''), (''2222'', ''refs/heads/main'')])"
        "[(''1111'', ''refs/queue/x''), (''2222'', ''refs/heads/main'')]"
        "[]" "\<lambda>p. Inr (stat_at 100 0)" "''/repo''" "\<lambda>n. stat_at 100 0"]
  by (simp add: ok_run_def run_err_def CombinedOutput_def listing_entry_def ascii_word_def
      show_ref_line_def MaxScanTokenSize_def HasPrefix_def)

text \<open>
  C3, as amended. A ref whose timestamp cannot be retrieved never leaves \<open>listRefs\<close>:
  every ref of a successful listing has file information, and when \<open>os.Stat\<close> fails
  for a ref under the namespace, the whole call returns the error
  \<open>can't stat() ref: <name>\<close> to its caller. The comparator has no such return: on a
  slice in which the ref at either index has a nil \<open>stat\<close>, \<open>Less\<close> panics.
\<close>

theorem nil_stat_handling:
  "(listRefs r st path namespace = Inr rs \<longrightarrow> (\<forall>x\<in>set rs. stat x \<noteq> None)) \<and>
   (run_err r = None \<and> CombinedOutput r = show_ref_listing (es1 @ e # es2) \<and>
    (\<forall>x\<in>set (es1 @ e # es2). listing_entry x) \<and>
    (\<forall>x\<in>set es1. HasPrefix (snd x) namespace \<longrightarrow> st [path, ''.git'', snd x] = Inr (mt (snd x))) \<and>
    HasPrefix (snd e) namespace \<and> st [path, ''.git'', snd e] = Inl err
    \<longrightarrow> listRefs r st path namespace = Inl (Hierr err (''can't stat() ref: '' @ snd e))) \<and>
   (i < length xs \<and> j < length xs \<and> (stat (xs ! i) = None \<or> stat (xs ! j) = None)
    \<longrightarrow> (\<exists>p. Less xs i j = Inl p))"
proof (intro conjI impI)
  assume "listRefs r st path namespace = Inr rs"
  then show "\<forall>x\<in>set rs. stat x \<noteq> None" by (rule listRefs_stat)
next
  assume a: "run_err r = None \<and> CombinedOutput r = show_ref_listing (es1 @ e # es2) \<and>
    (\<forall>x\<in>set (es1 @ e # es2). listing_entry x) \<and>
    (\<forall>x\<in>set es1. HasPrefix (snd x) namespace \<longrightarrow> st [path, ''.git'', snd x] = Inr (mt (snd x))) \<and>
    HasPrefix (snd e) namespace \<and> st [path, ''.git'', snd e] = Inl err"
  show "listRefs r st path namespace = Inl (Hierr err (''can't stat() ref: '' @ snd e))"
    by (rule listRefs_stat_failure [of r es1 e es2 namespace st path mt err]) (use a in blast)+
next
  assume "i < length xs \<and> j < length xs \<and> (stat (xs ! i) = None \<or> stat (xs ! j) = None)"
  then show "\<exists>p. Less xs i j = Inl p" using Less_panics [of i xs j] by blast
qed

text \<open>
  The three parts of C3 at concrete inputs: a listing of one ref, a listing whose second
  ref cannot be stat'ed, and a slice whose first ref has no file information.
\<close>

theorem nil_stat_handling_witness:
  "(\<exists>rs. listRefs (ok_run (show_ref_listing [(''1111'', ''refs/q/a'')]))
            (\<lambda>p. Inr (stat_at 100 0)) ''/repo'' ''refs/q/'' = Inr rs
        \<and> list_all (\<lambda>x. stat x \<noteq> None) rs) \<and>
   listRefs (ok_run (show_ref_listing [(''1111'', ''refs/q/a''), (''2222'', ''refs/q/b'')]))
     (\<lambda>p. if p = [''/repo'', ''.git'', ''refs/q/b''] then Inl (GoError ''stat /repo/.git/refs/q/b: no such file or directory'')
          else Inr (stat_at 100 0))
     ''/repo'' ''refs/q/''
     = Inl (Hierr (GoError ''stat /repo/.git/refs/q/b: no such file or directory'') ''can't stat() ref: refs/q/b'') \<and>
   (\<exists>p. Less [\<lparr>name = ''refs/q/a'', hash = ''1111'', stat = None\<rparr>,
               \<lparr>name = ''refs/q/b'', hash = ''2222'', stat = Some (stat_at 100 0)\<rparr>] 0 1 = Inl p)"
proof -
  let ?r1 = "ok_run (show_ref_listing [(''1111'', ''refs/q/a'')])"
  let ?r = "ok_run (show_ref_listing [(''1111'', ''refs/q/a''), (''2222'', ''refs/q/b'')])"
  let ?st = "\<lambda>p. if p = [''/repo'', ''.git'', ''refs/q/b'']
                  then Inl (GoError ''stat /repo/.git/refs/q/b: no such file or directory'')
                  else Inr (stat_at 100 0)"
  let ?xs = "[\<lparr>name = ''refs/q/a'', hash = ''1111'', stat = None\<rparr>,
              \<lparr>name = ''refs/q/b'', hash = ''2222'', stat = Some (stat_at 100 0)\<rparr>]"
  have 1: "listRefs ?r1 (\<lambda>p. Inr (stat_at 100 0)) ''/repo'' ''refs/q/''
           = Inr [\<lparr>name = ''refs/q/a'', hash = ''1111'', stat = Some (stat_at 100 0)\<rparr>]"
    by (simp add: listRefs_def ok_run_def run_err_def CombinedOutput_def show_ref_listing_def
        show_ref_line_def scan_lines_def MaxScanTokenSize_def dropCR_def Sscanf_def is_space_def
        HasPrefix_def)
  have a: "\<exists>rs. listRefs ?r1 (\<lambda>p. Inr (stat_at 100 0)) ''/repo'' ''refs/q/'' = Inr rs
             \<and> list_all (\<lambda>x. stat x \<noteq> None) rs"
    using nil_stat_handling [where r = ?r1 and st = "\<lambda>p. Inr (stat_at 100 0)" and path = "''/repo''"
        and namespace = "''refs/q/''"
        and rs = "[\<lparr>name = ''refs/q/a'', hash = ''1111'', stat = Some (stat_at 100 0)\<rparr>]"] 1
    by (simp add: list_all_iff)
  have b: "listRefs ?r ?st ''/repo'' ''refs/q/''
     = Inl (Hierr (GoError ''stat /repo/.git/refs/q/b: no such file or directory'') ''can't stat() ref: refs/q/b'')"
    using nil_stat_handling [where r = ?r and st = ?st and path = "''/repo''"
        and namespace = "''refs/q/''" and ?es1.0 = "[(''1111'', ''refs/q/a'')]"
        and e = "(''2222'', ''refs/q/b'')" and ?es2.0 = "[]" and mt = "\<lambda>n. stat_at 100 0"
        and err = "GoError ''stat /repo/.git/refs/q/b: no such file or directory''"]
    by (simp add: ok_run_def run_err_def CombinedOutput_def listing_entry_def ascii_word_def
        show_ref_line_def MaxScanTokenSize_def HasPrefix_def)
  have c: "\<exists>p. Less ?xs 0 1 = Inl p"
    using nil_stat_handling [where xs = ?xs and i = 0 and j = 1] by simp
  show ?thesis using a b c by blast
qed

text \<open>
  C3 as stated says a nil \<open>stat\<close> is reported as a recoverable error and not by a
  crash. On a ref with a nil \<open>stat\<close> the comparator panics.
\<close>

theorem nil_stat_panics_counterexample:
  "Less [\<lparr>name = ''refs/q/a'', hash = ''1111'', stat = None\<rparr>,
         \<lparr>name = ''refs/q/b'', hash = ''2222'', stat = Some (stat_at 100 0)\<rparr>] 0 1
   = Inl (Panic ''ref 1111 stat is nil'')"
  by (simp add: Less_def)

section \<open>Claims about the ordered view\<close>

text \<open>
  C2, as amended. The comparator reads whole seconds, \<open>ModTime().Unix()\<close>. Let \<open>xs\<close>
  be what \<open>listRefs\<close> returned and \<open>cs\<close> the same refs in the order of their
  creation, at strictly increasing whole seconds: each ref of \<open>cs\<close> is \<open>Less\<close> than
  every later one. Then every ordered view of \<open>xs\<close> is \<open>cs\<close>, oldest first.
\<close>

theorem ordered_view_oldest_first:
  assumes "listRefs r st path namespace = Inr xs"
    and "ordered_view xs ys"
    and "mset cs = mset xs"
    and "sorted_wrt (\<lambda>a b. less_ref a b = Inr True) cs"
  shows "ys = cs"
  using ordered_view_unique [OF listRefs_stat [OF assms(1)] assms(2,3,4)] .

text \<open>
  A listing in name order of two refs created one second apart, the second name first:
  its ordered view is the order of creation and not the order of the listing.
\<close>

theorem ordered_view_oldest_first_witness:
  "listRefs (ok_run (show_ref_listing [(''2222'', ''refs/q/a''), (''1111'', ''refs/q/b'')]))
     (\<lambda>p. if p = [''/repo'', ''.git'', ''refs/q/b''] then Inr (stat_at 100 0) else Inr (stat_at 101 0))
     ''/repo'' ''refs/q/''
     = Inr [\<lparr>name = ''refs/q/a'', hash = ''2222'', stat = Some (stat_at 101 0)\<rparr>,
            \<lparr>name = ''refs/q/b'', hash = ''1111'', stat = Some (stat_at 100 0)\<rparr>] \<and>
   ordered_view
     [\<lparr>name = ''refs/q/a'', hash = ''2222'', stat = Some (stat_at 101 0)\<rparr>,
      \<lparr>name = ''refs/q/b'', hash = ''1111'', stat = Some (stat_at 100 0)\<rparr>]
     [\<lparr>name = ''refs/q/b'', hash = ''1111'', stat = Some (stat_at 100 0)\<rparr>,
      \<lparr>name = ''refs/q/a'', hash = ''2222'', stat = Some (stat_at 101 0)\<rparr>] \<and>
   \<not> ordered_view
     [\<lparr>name = ''refs/q/a'', hash = ''2222'', stat = Some (stat_at 101 0)\<rparr>,
      \<lparr>name = ''refs/q/b'', hash = ''1111'', stat = Some (stat_at 100 0)\<rparr>]
     [\<lparr>name = ''refs/q/a'', hash = ''2222'', stat = Some (stat_at 101 0)\<rparr>,
      \<lparr>name = ''refs/q/b'', hash = ''1111'', stat = Some (stat_at 100 0)\<rparr>]"
proof -
  let ?a = "\<lparr>name = ''refs/q/a'', hash = ''2222'', stat = Some (stat_at 101 0)\<rparr>"
  let ?b = "\<lparr>name = ''refs/q/b'', hash = ''1111'', stat = Some (stat_at 100 0)\<rparr>"
  let ?r = "ok_run (show_ref_listing [(''2222'', ''refs/q/a''), (''1111'', ''refs/q/b'')])"
  let ?st = "\<lambda>p. if p = [''/repo'', ''.git'', ''refs/q/b''] then Inr (stat_at 100 0) else Inr (stat_at 101 0)"
  have l: "listRefs ?r ?st ''/repo'' ''refs/q/'' = Inr [?a, ?b]"
    by (simp add: listRefs_def ok_run_def run_err_def CombinedOutput_def
      show_ref_listing_def show_ref_line_def scan_lines_def MaxScanTokenSize_def dropCR_def
      Sscanf_def is_space_def HasPrefix_def)
  have v: "ordered_view [?a, ?b] [?b, ?a]"
    by (simp add: ordered_view_def ascending_two Less_def stat_at_def)
  have c: "sorted_wrt (\<lambda>a b. less_ref a b = Inr True) [?b, ?a]"
    by (simp add: less_ref_def Less_def stat_at_def)
  have n: "ordered_view [?a, ?b] [?a, ?b] \<Longrightarrow> False"
    using ordered_view_oldest_first [of ?r ?st "''/repo''" "''refs/q/''" "[?a, ?b]" "[?a, ?b]" "[?b, ?a]"] l c
    by simp
  show ?thesis using l v n by blast
qed

text \<open>
  C2 as stated fails within one second. \<open>refs/q/b\<close> is created at 100 s and
  \<open>refs/q/a\<close> 500 ns later, so the timestamps increase strictly; \<open>listRefs\<close> returns
  them in the order of the listing, \<open>refs/q/a\<close> first; the comparator ties them, the
  stable view of the listing is the listing itself, and the order of creation is not a
  stable view of it.
\<close>

theorem same_second_order_counterexample:
  "Before (Time 100 0) (Time 100 500) \<and>
   listRefs (ok_run (show_ref_listing [(''2222'', ''refs/q/a''), (''1111'', ''refs/q/b'')]))
     (\<lambda>p. if p = [''/repo'', ''.git'', ''refs/q/b''] then Inr (stat_at 100 0) else Inr (stat_at 100 500))
     ''/repo'' ''refs/q/''
     = Inr [\<lparr>name = ''refs/q/a'', hash = ''2222'', stat = Some (stat_at 100 500)\<rparr>,
            \<lparr>name = ''refs/q/b'', hash = ''1111'', stat = Some (stat_at 100 0)\<rparr>] \<and>
   stable_view
     [\<lparr>name = ''refs/q/a'', hash = ''2222'', stat = Some (stat_at 100 500)\<rparr>,
      \<lparr>name = ''refs/q/b'', hash = ''1111'', stat = Some (stat_at 100 0)\<rparr>]
     [\<lparr>name = ''refs/q/a'', hash = ''2222'', stat = Some (stat_at 100 500)\<rparr>,
      \<lparr>name = ''refs/q/b'', hash = ''1111'', stat = Some (stat_at 100 0)\<rparr>] \<and>
   \<not> stable_view
     [\<lparr>name = ''refs/q/a'', hash = ''2222'', stat = Some (stat_at 100 500)\<rparr>,
      \<lparr>name = ''refs/q/b'', hash = ''1111'', stat = Some (stat_at 100 0)\<rparr>]
     [\<lparr>name = ''refs/q/b'', hash = ''1111'', stat = Some (stat_at 100 0)\<rparr>,
      \<lparr>name = ''refs/q/a'', hash = ''2222'', stat = Some (stat_at 100 500)\<rparr>]"
  by (simp add: Before_def listRefs_def ok_run_def run_err_def CombinedOutput_def
      show_ref_listing_def show_ref_line_def scan_lines_def MaxScanTokenSize_def dropCR_def
      Sscanf_def is_space_def HasPrefix_def stable_view_def ordered_view_def ascending_two
      tied_def less_ref_def Less_def stat_at_def)




section \<open>Claims about the object store and the remote\<close>

text \<open>
  C1. Round trip: writing a payload \<open>P\<close> and reading back the returned hash yields
  \<open>P\<close>. The backing program can be started, the content hash of \<open>P\<close> is a word of
  hexadecimal digits, which the program prints on a line of its own, and the store holds
  nothing but \<open>P\<close> under that hash. Then \<open>writeObject\<close> returns the hash of \<open>P\<close>,
  and \<open>catFile\<close> of that hash, on the replica as \<open>writeObject\<close> left it, returns
  \<open>P\<close>.
\<close>

theorem write_read_roundtrip:
  assumes "git_present w"
    and "hex_digest (digest w P)"
    and "objects w (digest w P) = None \<or> objects w (digest w P) = Some P"
  shows "\<exists>w'. writeObject w path P = (Inr (digest w P), w')
            \<and> catFile w' path (digest w P) = (Inr P, w')"
proof -
  let ?h = "digest w P"
  let ?w' = "if objects w ?h = None then w\<lparr>objects := (objects w)(?h \<mapsto> P)\<rparr> else w"
  have wr: "writeObject w path P = (Inr ?h, ?w')"
    using assms(1,2)
    by (simp add: writeObject_def git_hash_object_cmd git_hash_object_def Let_def
        ok_run_fields TrimSpace_digest_line)
  have p: "git_present ?w'" using assms(1) by simp
  have o: "objects ?w' ?h = Some P" using assms(3) by auto
  have "catFile ?w' path ?h = (Inr P, ?w')"
    unfolding catFile_def git_cat_file_cmd [OF p] git_cat_file_def o
    by (simp add: catFile_result_def ok_run_fields)
  with wr show ?thesis by blast
qed

text \<open>
  The round trip of the payload \<open>task-1\<close> on an empty replica.
\<close>

theorem write_read_roundtrip_witness:
  "\<exists>w'. writeObject (replica True [] []) ''/repo'' ''task-1'' = (Inr ''0a1b'', w')
       \<and> catFile w' ''/repo'' ''0a1b'' = (Inr ''task-1'', w')"
  using write_read_roundtrip [of "replica True [] []" "''task-1''" "''/repo''"]
  by (simp add: replica_def hex_digest_def)

text \<open>
  C6. Prune propagation. A ref exists locally and on the remote, and the pattern
  matches its name. After \<open>removeRef\<close> has succeeded, a push of the pattern with
  \<open>PushPrune\<close> leaves the remote without the ref, and a push with \<open>PushNoPrune\<close>
  leaves the ref on the remote as it was, although it is absent locally.
\<close>

theorem prune_propagation:
  assumes "git_present w"
    and "local_refs w n = Some h"
    and "matches w pattern n"
    and "remote_refs w remote n = Some h'"
  shows "\<exists>w1 w2 w3.
           removeRef w path n = (None, w1) \<and> local_refs w1 n = None \<and>
           push w1 path remote pattern PushPrune = (None, w2) \<and> remote_refs w2 remote n = None \<and>
           push w1 path remote pattern PushNoPrune = (None, w3) \<and> remote_refs w3 remote n = Some h'"
proof -
  let ?w1 = "w\<lparr>local_refs := (local_refs w)(n := None)\<rparr>"
  have r: "removeRef w path n = (None, ?w1)"
    using assms(1,2) by (rule removeRef_present)
  have p: "git_present ?w1" using assms(1) by simp
  have 2: "push ?w1 path remote pattern PushPrune = (None, snd (git_push ?w1 remote pattern True))"
    using push_run [OF p] by (simp add: PushPrune_def)
  have 3: "push ?w1 path remote pattern PushNoPrune = (None, snd (git_push ?w1 remote pattern False))"
    using push_run [OF p] by (simp add: PushNoPrune_def)
  have a: "remote_refs (snd (git_push ?w1 remote pattern True)) remote n = None"
    using assms(3) by (simp add: git_push_def)
  have b: "remote_refs (snd (git_push ?w1 remote pattern False)) remote n = Some h'"
    using assms(3,4) by (simp add: git_push_def)
  have "local_refs ?w1 n = None" by simp
  with r 2 3 a b show ?thesis by blast
qed

text \<open>
  The ref \<open>refs/q/a\<close>, present locally and on \<open>origin\<close>, removed and pushed both
  ways.
\<close>

theorem prune_propagation_witness:
  "\<exists>w1 w2 w3.
     removeRef (replica True [(''refs/q/a'', ''1111'')] [(''refs/q/a'', ''1111'')]) ''/repo'' ''refs/q/a'' = (None, w1) \<and>
     local_refs w1 ''refs/q/a'' = None \<and>
     push w1 ''/repo'' ''origin'' ''refs/q/'' PushPrune = (None, w2) \<and>
     remote_refs w2 ''origin'' ''refs/q/a'' = None \<and>
     push w1 ''/repo'' ''origin'' ''refs/q/'' PushNoPrune = (None, w3) \<and>
     remote_refs w3 ''origin'' ''refs/q/a'' = Some ''1111''"
  using prune_propagation
    [of "replica True [(''refs/q/a'', ''1111'')] [(''refs/q/a'', ''1111'')]" "''refs/q/a''" "''1111''"
        "''refs/q/''" "''origin''" "''1111''" "''/repo''"]
  by (simp add: replica_def)

text \<open>
  C9. \<open>clone\<close> asks the backing program for a shallow, bare clone without checkout:
  the command line it builds reads as a clone of depth 1, bare, with no working tree,
  from the remote into the path of the replica. The remote is a location, not an option:
  it does not start with a dash.
\<close>

theorem clone_is_shallow_bare_no_checkout:
  assumes "\<not> prefix ''-'' remote"
  shows "git_clone_request (clone_command path remote) =
           Some \<lparr>clone_depth = Some 1, clone_bare = True, clone_no_checkout = True,
                 clone_remote = remote, clone_dir = path\<rparr>"
proof -
  have 1: "remote \<noteq> ''--bare''" "remote \<noteq> ''-n''" "remote \<noteq> ''--no-checkout''"
    using assms by auto
  have 2: "\<not> prefix ''--depth='' remote"
    using assms by (auto simp: prefix_def)
  show ?thesis
    using assms 1 2 by (simp add: git_clone_request_def clone_command_def)
qed

text \<open>
  The command line for a remote given by URL.
\<close>

theorem clone_is_shallow_bare_no_checkout_witness:
  "git_clone_request (clone_command ''/repo'' ''https://example.org/queue.git'') =
     Some \<lparr>clone_depth = Some 1, clone_bare = True, clone_no_checkout = True,
           clone_remote = ''https://example.org/queue.git'', clone_dir = ''/repo''\<rparr>"
  using clone_is_shallow_bare_no_checkout [of "''https://example.org/queue.git''" "''/repo''"]
  by simp

section \<open>Claims about errors\<close>




text \<open>
  C8, as amended. When the run of the backing process fails, \<open>updateRef\<close>,
  \<open>removeRef\<close>, \<open>listRefs\<close> and \<open>catFile\<close> return an error that holds the error
  of the run and the trimmed combined output of the process. \<open>clone\<close>, \<open>fetch\<close>,
  \<open>push\<close> and \<open>writeObject\<close> return an error that holds an error of the run and a
  message that does not depend on what the process printed: the error is the same for
  any other content of the two streams.
\<close>

theorem failure_reports:
  assumes "run_err r = Some e"
  shows "updateRef_result r =
           Some (Hierr e (''error executing git update-ref'' @ [CHR 0x0A] @ TrimSpace (stdout r @ stderr r))) \<and>
         removeRef_result r =
           Some (Hierr e (''error executing git update-ref -d'' @ [CHR 0x0A] @ TrimSpace (stdout r @ stderr r))) \<and>
         listRefs r st path namespace =
           Inl (Hierr e (''error executing git show-ref'' @ [CHR 0x0A] @ TrimSpace (stdout r @ stderr r))) \<and>
         catFile_result r =
           Inl (Hierr e (''error executing git cat-file'' @ [CHR 0x0A] @ TrimSpace (stdout r @ stderr r))) \<and>
         (\<exists>m. clone_result r path remote = Some (Hierr e m)
             \<and> clone_result (r\<lparr>stdout := out, stderr := msg\<rparr>) path remote = Some (Hierr e m)) \<and>
         (\<exists>m. fetch_result r remote rf = Some (Hierr e m)
             \<and> fetch_result (r\<lparr>stdout := out, stderr := msg\<rparr>) remote rf = Some (Hierr e m)) \<and>
         (\<exists>m. push_result r remote rf = Some (Hierr e m)
             \<and> push_result (r\<lparr>stdout := out, stderr := msg\<rparr>) remote rf = Some (Hierr e m)) \<and>
         (\<exists>e' m. writeObject_result r = Inl (Hierr e' m)
             \<and> writeObject_result (r\<lparr>stdout := out, stderr := msg\<rparr>) = Inl (Hierr e' m))"
proof -
  have r: "run_err (r\<lparr>stdout := out, stderr := msg\<rparr>) = Some e"
    using assms by (simp add: run_err_def split: option.splits)
  have 1: "updateRef_result r =
           Some (Hierr e (''error executing git update-ref'' @ [CHR 0x0A] @ TrimSpace (stdout r @ stderr r)))"
    using assms by (simp add: updateRef_result_def CombinedOutput_def)
  have 2: "removeRef_result r =
           Some (Hierr e (''error executing git update-ref -d'' @ [CHR 0x0A] @ TrimSpace (stdout r @ stderr r)))"
    using assms by (simp add: removeRef_result_def CombinedOutput_def)
  have 3: "listRefs r st path namespace =
           Inl (Hierr e (''error executing git show-ref'' @ [CHR 0x0A] @ TrimSpace (stdout r @ stderr r)))"
    using assms by (simp add: listRefs_def CombinedOutput_def)
  have 4: "catFile_result r =
           Inl (Hierr e (''error executing git cat-file'' @ [CHR 0x0A] @ TrimSpace (stdout r @ stderr r)))"
    using assms by (simp add: catFile_result_def CombinedOutput_def)
  have 5: "\<exists>m. clone_result r path remote = Some (Hierr e m)
             \<and> clone_result (r\<lparr>stdout := out, stderr := msg\<rparr>) path remote = Some (Hierr e m)"
    using assms r by (simp add: clone_result_def)
  have 6: "\<exists>m. fetch_result r remote rf = Some (Hierr e m)
             \<and> fetch_result (r\<lparr>stdout := out, stderr := msg\<rparr>) remote rf = Some (Hierr e m)"
    using assms r by (simp add: fetch_result_def)
  have 7: "\<exists>m. push_result r remote rf = Some (Hierr e m)
             \<and> push_result (r\<lparr>stdout := out, stderr := msg\<rparr>) remote rf = Some (Hierr e m)"
    using assms r by (simp add: push_result_def)
  have 8: "\<exists>e' m. writeObject_result r = Inl (Hierr e' m)
             \<and> writeObject_result (r\<lparr>stdout := out, stderr := msg\<rparr>) = Inl (Hierr e' m)"
    using writeObject_result_failure [OF assms, where out = out and msg = msg] by blast
  show ?thesis using 1 2 3 4 5 6 7 8 by blast
qed

text \<open>
  A failed run of \<open>git cat-file\<close> and a failed run of \<open>git fetch\<close>: the first
  error ends with what the process printed, the second is the same with and without
  it.
\<close>

theorem failure_reports_witness:
  "catFile_result (failed_run (GoError ''exit status 128'') (''fatal: Not a valid object name 0a1b'' @ [CHR 0x0A]))
     = Inl (Hierr (GoError ''exit status 128'')
              (''error executing git cat-file'' @ [CHR 0x0A] @ ''fatal: Not a valid object name 0a1b'')) \<and>
   (\<exists>m. fetch_result (failed_run (GoError ''exit status 128'') (''fatal: Not a valid object name 0a1b'' @ [CHR 0x0A]))
            ''origin'' ''refs/q/a'' = Some (Hierr (GoError ''exit status 128'') m)
       \<and> fetch_result (failed_run (GoError ''exit status 128'') []) ''origin'' ''refs/q/a''
           = Some (Hierr (GoError ''exit status 128'') m))"
proof -
  let ?e = "GoError ''exit status 128''"
  let ?r = "failed_run ?e (''fatal: Not a valid object name 0a1b'' @ [CHR 0x0A])"
  have h: "run_err ?r = Some ?e" by (simp add: failed_run_fields)
  have a: "catFile_result ?r =
             Inl (Hierr ?e (''error executing git cat-file'' @ [CHR 0x0A] @ TrimSpace (stdout ?r @ stderr ?r)))"
    using failure_reports [OF h] by blast
  have b: "\<exists>m. fetch_result ?r ''origin'' ''refs/q/a'' = Some (Hierr ?e m)
             \<and> fetch_result (?r\<lparr>stdout := [], stderr := []\<rparr>) ''origin'' ''refs/q/a'' = Some (Hierr ?e m)"
    using failure_reports [OF h, where remote = "''origin''" and rf = "''refs/q/a''" and out = "[]" and msg = "[]"]
    by blast
  have t: "TrimSpace (stdout ?r @ stderr ?r) = ''fatal: Not a valid object name 0a1b''"
    by (simp add: failed_run_def TrimSpace_def is_space_def)
  have u: "?r\<lparr>stdout := [], stderr := []\<rparr> = failed_run ?e []"
    by (simp add: failed_run_def)
  show ?thesis using a b unfolding t u by simp
qed

text \<open>
  C8 as stated has every operation carry the captured output of the process. Two
  failed runs of \<open>git push\<close> that print different messages give one and the same
  error, which holds neither.
\<close>

theorem push_error_without_output_counterexample:
  "push_result (failed_run (GoError ''exit status 128'') ''fatal: repository not found'') ''origin'' ''refs/q/*''
     = Some (Hierr (GoError ''exit status 128'')
               (''can't run git push '' @ [CHR 0x27] @ ''origin'' @ [CHR 0x27] @ '' ''
                @ [CHR 0x27] @ ''refs/q/*'' @ [CHR 0x27])) \<and>
   push_result (failed_run (GoError ''exit status 128'') ''fatal: unable to access remote'') ''origin'' ''refs/q/*''
     = Some (Hierr (GoError ''exit status 128'')
               (''can't run git push '' @ [CHR 0x27] @ ''origin'' @ [CHR 0x27] @ '' ''
                @ [CHR 0x27] @ ''refs/q/*'' @ [CHR 0x27]))"
  by (simp add: push_result_def failed_run_fields)

end
